theory Spec2Isabelle
  imports Complex_Main "HOL-Library.Word" "HOL-Library.Sublist"
begin

section \<open>Strings and JSON values of the runtime\<close>

text \<open>
  The handler of \<^verbatim>\<open>supabase/functions/detect-thermal/index.ts\<close> runs on a JavaScript
  engine. A JavaScript string is a sequence of 16-bit code units; \<open>js\<close> turns a literal of
  the source into that sequence.
\<close>

type_synonym code_unit = "16 word"
type_synonym jstring = "code_unit list"

definition js :: "string \<Rightarrow> jstring" where
  "js s = map of_char s"

text \<open>
  A value that \<^verbatim>\<open>JSON.parse\<close> can produce. A number is kept as the rational number its
  literal denotes (the rounding to an IEEE double is not part of the model). An object is
  the list of its properties in insertion order, each key once (the engine's reordering of
  integer-like keys is not part of the model). \<open>None\<close> of type \<open>json option\<close> stands for
  \<^verbatim>\<open>undefined\<close>.
\<close>

datatype json =
    JNull
  | JBool bool
  | JNumber rat
  | JString jstring
  | JArray "json list"
  | JObject "(jstring \<times> json) list"

subsection \<open>\<^verbatim>\<open>JSON.parse\<close>\<close>

text \<open>The grammar of ECMA-404, as \<^verbatim>\<open>JSON.parse\<close> applies it to the whole text.\<close>

definition is_ws :: "code_unit \<Rightarrow> bool" where
  "is_ws c \<longleftrightarrow> c = 0x20 \<or> c = 0x09 \<or> c = 0x0A \<or> c = 0x0D"

definition skip_ws :: "jstring \<Rightarrow> jstring" where
  "skip_ws s = dropWhile is_ws s"

definition is_digit :: "code_unit \<Rightarrow> bool" where
  "is_digit c \<longleftrightarrow> 0x30 \<le> c \<and> c \<le> 0x39"

definition digit_val :: "code_unit \<Rightarrow> nat" where
  "digit_val c = unat c - 0x30"

definition digits_val :: "jstring \<Rightarrow> nat" where
  "digits_val ds = foldl (\<lambda>a d. 10 * a + digit_val d) 0 ds"

definition hex_val :: "code_unit \<Rightarrow> nat option" where
  "hex_val c =
     (if 0x30 \<le> c \<and> c \<le> 0x39 then Some (unat c - 0x30)
      else if 0x41 \<le> c \<and> c \<le> 0x46 then Some (unat c - 0x41 + 10)
      else if 0x61 \<le> c \<and> c \<le> 0x66 then Some (unat c - 0x61 + 10)
      else None)"

text \<open>The four hexadecimal digits of a \<^verbatim>\<open>\uXXXX\<close> escape.\<close>

definition hex4 :: "jstring \<Rightarrow> code_unit option" where
  "hex4 s =
     (case map hex_val (take 4 s) of
        [Some a, Some b, Some c, Some d] \<Rightarrow> Some (of_nat (((a * 16 + b) * 16 + c) * 16 + d))
      | _ \<Rightarrow> None)"

text \<open>The character after a backslash: \<^verbatim>\<open>" \ / b f n r t\<close>.\<close>

definition simple_escape :: "code_unit \<Rightarrow> code_unit option" where
  "simple_escape e =
     (if e = 0x22 then Some 0x22
      else if e = 0x5C then Some 0x5C
      else if e = 0x2F then Some 0x2F
      else if e = 0x62 then Some 0x08
      else if e = 0x66 then Some 0x0C
      else if e = 0x6E then Some 0x0A
      else if e = 0x72 then Some 0x0D
      else if e = 0x74 then Some 0x09
      else None)"

text \<open>
  The characters of a string literal after its opening quote, up to and including the
  closing quote; the result is the string denoted and the text that follows.
\<close>

function string_chars :: "jstring \<Rightarrow> (jstring \<times> jstring) option" where
  "string_chars [] = None"
| "string_chars (c # cs) =
     (if c = 0x22 then Some ([], cs)
      else if c = 0x5C then
        (case cs of
           [] \<Rightarrow> None
         | e # r \<Rightarrow>
             if e = 0x75 then
               (case hex4 r of
                  None \<Rightarrow> None
                | Some u \<Rightarrow> map_option (apfst ((#) u)) (string_chars (drop 4 r)))
             else
               (case simple_escape e of
                  None \<Rightarrow> None
                | Some u \<Rightarrow> map_option (apfst ((#) u)) (string_chars r)))
      else if c < 0x20 then None
      else map_option (apfst ((#) c)) (string_chars cs))"
  by pat_completeness auto
termination
  by (relation "measure length") auto

text \<open>A number literal: \<^verbatim>\<open>-? (0 | [1-9][0-9]*) (. [0-9]+)? ([eE] [+-]? [0-9]+)?\<close>.\<close>

definition int_part :: "jstring \<Rightarrow> (nat \<times> jstring) option" where
  "int_part s =
     (case s of
        [] \<Rightarrow> None
      | d # r \<Rightarrow>
          if d = 0x30 then Some (0, r)
          else if is_digit d then
            Some (digits_val (d # takeWhile is_digit r), dropWhile is_digit r)
          else None)"

definition frac_part :: "jstring \<Rightarrow> (rat \<times> jstring) option" where
  "frac_part s =
     (case s of
        [] \<Rightarrow> Some (0, s)
      | p # r \<Rightarrow>
          if p = 0x2E then
            (let ds = takeWhile is_digit r in
             if ds = [] then None
             else Some (of_nat (digits_val ds) / 10 ^ length ds, dropWhile is_digit r))
          else Some (0, s))"

definition exp_part :: "jstring \<Rightarrow> (int \<times> jstring) option" where
  "exp_part s =
     (case s of
        [] \<Rightarrow> Some (0, s)
      | e # r \<Rightarrow>
          if e = 0x65 \<or> e = 0x45 then
            (let (neg, r1) =
                   (case r of
                      [] \<Rightarrow> (False, r)
                    | g # r' \<Rightarrow>
                        if g = 0x2D then (True, r')
                        else if g = 0x2B then (False, r')
                        else (False, r));
                 ds = takeWhile is_digit r1
             in if ds = [] then None
                else Some (if neg then - int (digits_val ds) else int (digits_val ds),
                           dropWhile is_digit r1))
          else Some (0, s))"

definition scale10 :: "rat \<Rightarrow> int \<Rightarrow> rat" where
  "scale10 x e = (if 0 \<le> e then x * 10 ^ nat e else x / 10 ^ nat (- e))"

definition parse_number :: "jstring \<Rightarrow> (rat \<times> jstring) option" where
  "parse_number s =
     (let (neg, s1) =
            (case s of
               [] \<Rightarrow> (False, s)
             | c # r \<Rightarrow> if c = 0x2D then (True, r) else (False, s))
      in case int_part s1 of
           None \<Rightarrow> None
         | Some (i, s2) \<Rightarrow>
             (case frac_part s2 of
                None \<Rightarrow> None
              | Some (f, s3) \<Rightarrow>
                  (case exp_part s3 of
                     None \<Rightarrow> None
                   | Some (e, s4) \<Rightarrow>
                       Some (scale10 (if neg then - (of_nat i + f) else of_nat i + f) e, s4))))"

definition parse_literal :: "jstring \<Rightarrow> (json \<times> jstring) option" where
  "parse_literal s =
     (if prefix (js ''true'') s then Some (JBool True, drop 4 s)
      else if prefix (js ''false'') s then Some (JBool False, drop 5 s)
      else if prefix (js ''null'') s then Some (JNull, drop 4 s)
      else map_option (apfst JNumber) (parse_number s))"

text \<open>
  Setting a property of an object under construction: a key that is already there keeps
  its place and takes the new value, a new key goes to the end.
\<close>

fun set_prop :: "(jstring \<times> json) list \<Rightarrow> jstring \<Rightarrow> json \<Rightarrow> (jstring \<times> json) list" where
  "set_prop [] k v = [(k, v)]"
| "set_prop ((k', v') # ps) k v =
     (if k' = k then (k, v) # ps else (k', v') # set_prop ps k v)"

definition make_object :: "(jstring \<times> json) list \<Rightarrow> json" where
  "make_object ms = JObject (foldl (\<lambda>ps (k, v). set_prop ps k v) [] ms)"

text \<open>
  A value with the white space before it; the elements of an array after its opening
  bracket; the members of an object after its opening brace. Each returns the text that
  follows what it read. After a comma the rest is read only if it is shorter than the
  text the element began at, which is always so (\<open>parse_value_shorter\<close>).
\<close>

function parse_value :: "jstring \<Rightarrow> (json \<times> jstring) option"
  and parse_elements :: "jstring \<Rightarrow> (json list \<times> jstring) option"
  and parse_members :: "jstring \<Rightarrow> ((jstring \<times> json) list \<times> jstring) option"
where
  "parse_value s =
     (case skip_ws s of
        [] \<Rightarrow> None
      | c # cs \<Rightarrow>
          if c = 0x5B then
            (case skip_ws cs of
               [] \<Rightarrow> None
             | d # r \<Rightarrow>
                 if d = 0x5D then Some (JArray [], r)
                 else map_option (apfst JArray) (parse_elements cs))
          else if c = 0x7B then
            (case skip_ws cs of
               [] \<Rightarrow> None
             | d # r \<Rightarrow>
                 if d = 0x7D then Some (JObject [], r)
                 else map_option (apfst make_object) (parse_members cs))
          else if c = 0x22 then map_option (apfst JString) (string_chars cs)
          else parse_literal (c # cs))"
| "parse_elements s =
     (case parse_value s of
        None \<Rightarrow> None
      | Some (v, r) \<Rightarrow>
          (case skip_ws r of
             [] \<Rightarrow> None
           | d # r' \<Rightarrow>
               if d = 0x5D then Some ([v], r')
               else if d = 0x2C \<and> length r' < length s then
                 map_option (apfst ((#) v)) (parse_elements r')
               else None))"
| "parse_members s =
     (case skip_ws s of
        [] \<Rightarrow> None
      | q # s1 \<Rightarrow>
          if q = 0x22 then
            (case string_chars s1 of
               None \<Rightarrow> None
             | Some (k, s2) \<Rightarrow>
                 (case skip_ws s2 of
                    [] \<Rightarrow> None
                  | p # s3 \<Rightarrow>
                      if p = 0x3A then
                        (case parse_value s3 of
                           None \<Rightarrow> None
                         | Some (v, r) \<Rightarrow>
                             (case skip_ws r of
                                [] \<Rightarrow> None
                              | d # r' \<Rightarrow>
                                  if d = 0x7D then Some ([(k, v)], r')
                                  else if d = 0x2C \<and> length r' < length s then
                                    map_option (apfst ((#) (k, v))) (parse_members r')
                                  else None))
                      else None))
          else None)"
  by pat_completeness auto
termination
proof -
  have ws: "length cs < length s" if "skip_ws s = c # cs" for s c and cs :: jstring
  proof -
    have "length (skip_ws s) \<le> length s"
      unfolding skip_ws_def by (rule length_dropWhile_le)
    with that show ?thesis by simp
  qed
  have str: "length r < length s" if "string_chars s = Some (k, r)" for s k r
    using that
  proof (induction s arbitrary: k r rule: string_chars.induct)
    case 1
    then show ?case by simp
  next
    case (2 c cs)
    then show ?case
      by (fastforce split: if_splits list.splits option.splits)
  qed
  show ?thesis
  proof (relation "measure (\<lambda>x. case x of
            Inl s \<Rightarrow> 2 * length s
          | Inr (Inl s) \<Rightarrow> 2 * length s + 1
          | Inr (Inr s) \<Rightarrow> 2 * length s + 1)", goal_cases)
    case 1
    then show ?case by simp
  next
    case (2 s c cs d r)
    then show ?case by (auto dest: ws)
  next
    case (3 s c cs d r)
    then show ?case by (auto dest: ws)
  next
    case (4 s)
    then show ?case by simp
  next
    case (5 s v r d r')
    then show ?case by simp
  next
    case (6 s q s1 k s2 p s3)
    then show ?case by (auto dest!: ws str)
  next
    case (7 s q s1 k s2 p s3 v r d r')
    then show ?case by simp
  qed
qed

declare parse_value.simps [simp del] parse_elements.simps [simp del] parse_members.simps [simp del]

definition JSON_parse :: "jstring \<Rightarrow> json option" where
  "JSON_parse s =
     (case parse_value s of
        None \<Rightarrow> None
      | Some (v, r) \<Rightarrow> if skip_ws r = [] then Some v else None)"


section \<open>Helpers of the language that the handler uses\<close>

text \<open>
  \<^verbatim>\<open>content.match(/\[[\s\S]*\]/)\<close>: the leftmost match starts at the first opening
  bracket, and the greedy star runs to the last closing bracket after it. The result is
  \<^verbatim>\<open>jsonMatch[0]\<close>, or \<open>None\<close> when there is no match.
\<close>

definition bracket_match :: "jstring \<Rightarrow> jstring option" where
  "bracket_match s =
     (case dropWhile (\<lambda>c. c \<noteq> 0x5B) s of
        [] \<Rightarrow> None
      | b # r \<Rightarrow>
          if 0x5D \<in> set r then Some (b # rev (dropWhile (\<lambda>c. c \<noteq> 0x5D) (rev r)))
          else None)"

text \<open>\<^verbatim>\<open>s.replace(pat, rep)\<close> with a string pattern: the first occurrence only.\<close>

fun replace_first :: "jstring \<Rightarrow> jstring \<Rightarrow> jstring \<Rightarrow> jstring" where
  "replace_first pat rep [] = (if pat = [] then rep else [])"
| "replace_first pat rep (c # cs) =
     (if prefix pat (c # cs) then rep @ drop (length pat) (c # cs)
      else c # replace_first pat rep cs)"

text \<open>
  An integral number inside a template literal: its decimal digits (a time value
  is far below the magnitude from which the engine prints an exponent).
\<close>

fun digits_of :: "nat \<Rightarrow> jstring" where
  "digits_of n =
     (if n < 10 then [of_nat (0x30 + n)]
      else digits_of (n div 10) @ [of_nat (0x30 + n mod 10)])"

declare digits_of.simps [simp del]

definition number_to_string :: "int \<Rightarrow> jstring" where
  "number_to_string i = (if i < 0 then 0x2D # digits_of (nat (- i)) else digits_of (nat i))"

text \<open>
  \<^verbatim>\<open>btoa(String.fromCharCode(...bytes))\<close>: one code unit per byte, then base64 with
  padding.
\<close>

definition b64_digit :: "nat \<Rightarrow> code_unit" where
  "b64_digit n =
     js ''ABCDEFGHIJKLMNOPQRSTUVWXYZabcdefghijklmnopqrstuvwxyz0123456789+/'' ! (n mod 64)"

fun base64 :: "8 word list \<Rightarrow> jstring" where
  "base64 [] = []"
| "base64 [a] =
     (let n = unat a * 65536 in
      [b64_digit (n div 262144), b64_digit (n div 4096), 0x3D, 0x3D])"
| "base64 [a, b] =
     (let n = unat a * 65536 + unat b * 256 in
      [b64_digit (n div 262144), b64_digit (n div 4096), b64_digit (n div 64), 0x3D])"
| "base64 (a # b # c # r) =
     (let n = unat a * 65536 + unat b * 256 + unat c in
      [b64_digit (n div 262144), b64_digit (n div 4096), b64_digit (n div 64), b64_digit n]
      @ base64 r)"

text \<open>
  Truthiness of a value that came out of \<^verbatim>\<open>JSON.parse\<close>. A number is falsy when it is
  zero as a double, that is when the literal rounds to zero: at most \<open>2\<^sup>-\<^sup>1\<^sup>0\<^sup>7\<^sup>5\<close> in
  absolute value.
\<close>

fun truthy :: "json \<Rightarrow> bool" where
  "truthy JNull = False"
| "truthy (JBool b) = b"
| "truthy (JNumber q) = (1 / 2 ^ 1075 < \<bar>q\<bar>)"
| "truthy (JString s) = (s \<noteq> [])"
| "truthy (JArray xs) = True"
| "truthy (JObject ps) = True"

text \<open>
  Reading a property \<^verbatim>\<open>v.k\<close> of a parsed value that is not \<^verbatim>\<open>null\<close>, for the names the
  handler reads (\<^verbatim>\<open>choices\<close>, \<^verbatim>\<open>message\<close>, \<^verbatim>\<open>content\<close>), which no built-in prototype
  defines: only an object can have them.
\<close>

definition member :: "jstring \<Rightarrow> json \<Rightarrow> json option" where
  "member k v = (case v of JObject ps \<Rightarrow> map_of ps k | _ \<Rightarrow> None)"

text \<open>\<^verbatim>\<open>v[0]\<close> on a parsed value that is not \<^verbatim>\<open>null\<close>.\<close>

definition index0 :: "json \<Rightarrow> json option" where
  "index0 v =
     (case v of
        JArray xs \<Rightarrow> (case xs of [] \<Rightarrow> None | x # _ \<Rightarrow> Some x)
      | JString s \<Rightarrow> (case s of [] \<Rightarrow> None | c # _ \<Rightarrow> Some (JString [c]))
      | JObject ps \<Rightarrow> map_of ps (js ''0'')
      | _ \<Rightarrow> None)"

text \<open>The optional chain \<^verbatim>\<open>x?.f\<close>: \<^verbatim>\<open>undefined\<close> when \<open>x\<close> is \<^verbatim>\<open>undefined\<close> or \<^verbatim>\<open>null\<close>.\<close>

definition opt_chain :: "(json \<Rightarrow> json option) \<Rightarrow> json option \<Rightarrow> json option" where
  "opt_chain f x =
     (case x of None \<Rightarrow> None | Some v \<Rightarrow> if v = JNull then None else f v)"


section \<open>The request, the collaborators and the response\<close>

text \<open>
  What a \<^verbatim>\<open>catch\<close> clause receives: an \<^verbatim>\<open>Error\<close> object with its message, or some
  other value. An awaited call either rejects with such a value or resolves.
\<close>

datatype thrown = Error jstring | Thrown_value

datatype 'a awaited = Rejects thrown | Resolves 'a

text \<open>The two errors the engine itself raises in the handler; their wording is the engine's.\<close>

datatype engine_error = Not_a_function | Call_stack_exceeded

record file_object =
  name :: jstring
  type :: jstring
  bytes :: "8 word list"

text \<open>An entry of the multipart form is a string or a file.\<close>

datatype form_entry = Text jstring | File file_object

record request =
  "method" :: jstring
  authorization :: "jstring option"
  formData :: "(jstring \<times> form_entry) list awaited"

record user =
  uid :: jstring

record auth_reply =
  user :: "user option"
  authError :: "jstring option"

record upload_options =
  contentType :: "jstring option"
  upsert :: bool

record upload_data =
  path :: jstring

record fetch_request =
  url :: jstring
  fetch_method :: jstring
  fetch_headers :: "(jstring \<times> jstring) list"
  fetch_body :: json

record ai_response =
  ai_status :: nat
  text_body :: "jstring awaited"
  json_body :: "json awaited"

record detection_row =
  user_id :: jstring
  image_path :: jstring
  detections :: json

record detection_record =
  record_id :: jstring
  created_at :: jstring

record signed_url =
  signedUrl :: jstring

text \<open>
  The world one invocation runs in. The client library answers with a pair of data and
  error of which one is null: \<open>Inl\<close> is the error, \<open>Inr\<close> the data. \<open>max_arguments\<close>
  is the engine's bound on the number of arguments of one call, which the spread in
  \<^verbatim>\<open>String.fromCharCode(...new Uint8Array(arrayBuffer))\<close> runs into. The client is
  taken as constructed from \<^verbatim>\<open>SUPABASE_URL\<close> and \<^verbatim>\<open>SUPABASE_SERVICE_ROLE_KEY\<close>,
  which the source asserts to be set.
\<close>

record env =
  lovableApiKey :: jstring
  getUser :: "jstring \<Rightarrow> auth_reply awaited"
  now :: int
  upload :: "jstring \<Rightarrow> form_entry \<Rightarrow> upload_options \<Rightarrow> (jstring + upload_data) awaited"
  max_arguments :: nat
  engine_message :: "engine_error \<Rightarrow> jstring"
  fetch :: "fetch_request \<Rightarrow> ai_response awaited"
  insert_detection :: "detection_row \<Rightarrow> (jstring + detection_record) awaited"
  createSignedUrl :: "jstring \<Rightarrow> nat \<Rightarrow> (jstring + signed_url) awaited"

text \<open>The calls to the collaborators, in the order the handler makes them.\<close>

datatype call =
    GetUser jstring
  | Upload jstring form_entry upload_options
  | Fetch fetch_request
  | Insert detection_row
  | CreateSignedUrl jstring nat

text \<open>A response; \<open>body\<close> is the value given to \<^verbatim>\<open>JSON.stringify\<close>, \<open>None\<close> for no body.\<close>

record response =
  status :: nat
  headers :: "(jstring \<times> jstring) list"
  body :: "json option"

definition corsHeaders :: "(jstring \<times> jstring) list" where
  "corsHeaders =
     [(js ''Access-Control-Allow-Origin'', js ''*''),
      (js ''Access-Control-Allow-Headers'',
       js ''authorization, x-client-info, apikey, content-type'')]"

definition error_response :: "nat \<Rightarrow> jstring \<Rightarrow> response" where
  "error_response st msg =
     \<lparr>status = st,
      headers = corsHeaders @ [(js ''Content-Type'', js ''application/json'')],
      body = Some (JObject [(js ''error'', JString msg)])\<rparr>"

text \<open>
  The body of the success response. \<^verbatim>\<open>JSON.stringify\<close> leaves out a property whose
  value is \<^verbatim>\<open>undefined\<close>, as \<^verbatim>\<open>urlData?.signedUrl\<close> is when signing gave no data.
\<close>

definition success_response ::
  "detection_record \<Rightarrow> jstring option \<Rightarrow> json \<Rightarrow> response" where
  "success_response detectionRecord image_url dets =
     \<lparr>status = 200,
      headers = corsHeaders @ [(js ''Content-Type'', js ''application/json'')],
      body = Some (JObject
        ([(js ''id'', JString (record_id detectionRecord))]
         @ (case image_url of None \<Rightarrow> [] | Some u \<Rightarrow> [(js ''image_url'', JString u)])
         @ [(js ''detections'', dets),
            (js ''created_at'', JString (created_at detectionRecord))]))\<rparr>"

section \<open>The handler\<close>

definition ai_request :: "jstring \<Rightarrow> jstring \<Rightarrow> fetch_request" where
  "ai_request apiKey dataUrl =
     \<lparr>url = js ''https://ai.gateway.lovable.dev/v1/chat/completions'',
      fetch_method = js ''POST'',
      fetch_headers =
        [(js ''Authorization'', js ''Bearer '' @ apiKey),
         (js ''Content-Type'', js ''application/json'')],
      fetch_body = JObject
        [(js ''model'', JString (js ''google/gemini-2.5-flash'')),
         (js ''messages'', JArray
            [JObject
               [(js ''role'', JString (js ''system'')),
                (js ''content'', JString (js ''You are a thermal image analysis AI specialized in object detection. Analyze thermal images and identify objects, their locations, and temperature characteristics. Return detections in JSON format with: label (object name), confidence (0-1), bbox (x, y, width, height as percentages), and temperature (hot/warm/cool/cold).''))],
             JObject
               [(js ''role'', JString (js ''user'')),
                (js ''content'', JArray
                   [JObject
                      [(js ''type'', JString (js ''text'')),
                       (js ''text'', JString (js ''Analyze this thermal image and detect all objects. Return ONLY a JSON array of detections with this structure: [{\"label\": \"object name\", \"confidence\": 0.95, \"bbox\": {\"x\": 10, \"y\": 20, \"width\": 30, \"height\": 40}, \"temperature\": \"hot\"}]''))],
                    JObject
                      [(js ''type'', JString (js ''image_url'')),
                       (js ''image_url'', JObject [(js ''url'', JString dataUrl)])]])]]),
         (js ''temperature'', JNumber (3 / 10))]\<rparr>"

text \<open>\<^verbatim>\<open>aiResponse.ok\<close>: the status is in the range 200 to 299.\<close>

definition ok :: "ai_response \<Rightarrow> bool" where
  "ok r \<longleftrightarrow> 200 \<le> ai_status r \<and> ai_status r \<le> 299"

text \<open>The mock detection of the \<^verbatim>\<open>catch\<close> clause around the parsing.\<close>

definition fallback_detections :: json where
  "fallback_detections =
     JArray
       [JObject
          [(js ''label'', JString (js ''Thermal Object'')),
           (js ''confidence'', JNumber (85 / 100)),
           (js ''bbox'', JObject
              [(js ''x'', JNumber 25), (js ''y'', JNumber 30),
               (js ''width'', JNumber 40), (js ''height'', JNumber 35)]),
           (js ''temperature'', JString (js ''hot''))]]"

text \<open>
  \<^verbatim>\<open>aiData.choices?.[0]?.message?.content\<close>, for \<open>aiData\<close> other than \<^verbatim>\<open>null\<close>
  (reading \<^verbatim>\<open>choices\<close> of \<^verbatim>\<open>null\<close> throws).
\<close>

definition message_content :: "json \<Rightarrow> json option" where
  "message_content aiData =
     opt_chain (member (js ''content''))
       (opt_chain (member (js ''message''))
          (opt_chain index0 (member (js ''choices'') aiData)))"

text \<open>
  The body of the inner \<^verbatim>\<open>try\<close>; \<open>None\<close> when it throws: the \<^verbatim>\<open>TypeError\<close> of reading
  \<^verbatim>\<open>choices\<close> of \<^verbatim>\<open>null\<close> or of calling \<^verbatim>\<open>match\<close> on a content that is not a string,
  or the \<^verbatim>\<open>SyntaxError\<close> of \<^verbatim>\<open>JSON.parse\<close>.
\<close>

definition try_parse :: "json \<Rightarrow> json option" where
  "try_parse aiData =
     (if aiData = JNull then None
      else
        let content =
              (case message_content aiData of
                 None \<Rightarrow> JString (js ''[]'')
               | Some c \<Rightarrow> if truthy c then c else JString (js ''[]''))
        in case content of
             JString s \<Rightarrow>
               (case bracket_match s of
                  Some jsonMatch \<Rightarrow> JSON_parse jsonMatch
                | None \<Rightarrow> JSON_parse s)
           | _ \<Rightarrow> None)"

definition parse_detections :: "json \<Rightarrow> json" where
  "parse_detections aiData =
     (case try_parse aiData of Some dets \<Rightarrow> dets | None \<Rightarrow> fallback_detections)"

text \<open>\<^verbatim>\<open>file.name\<close> inside the template literal and \<^verbatim>\<open>file.type\<close>, on a form entry.\<close>

definition entry_name :: "form_entry \<Rightarrow> jstring" where
  "entry_name e = (case e of File f \<Rightarrow> name f | Text _ \<Rightarrow> js ''undefined'')"

definition entry_type :: "form_entry \<Rightarrow> jstring option" where
  "entry_type e = (case e of File f \<Rightarrow> Some (type f) | Text _ \<Rightarrow> None)"

definition truthy_entry :: "form_entry \<Rightarrow> bool" where
  "truthy_entry e = (case e of File _ \<Rightarrow> True | Text t \<Rightarrow> t \<noteq> [])"

definition fileName :: "user \<Rightarrow> int \<Rightarrow> form_entry \<Rightarrow> jstring" where
  "fileName u millis e = uid u @ js ''/'' @ number_to_string millis @ js ''_'' @ entry_name e"

definition dataUrl :: "file_object \<Rightarrow> jstring" where
  "dataUrl f = js ''data:'' @ type f @ js '';base64,'' @ base64 (bytes f)"

text \<open>
  The body of the outer \<^verbatim>\<open>try\<close>: the response it returns or the value it throws, and
  the calls made up to there. Logging is left out.
\<close>

definition try_block :: "env \<Rightarrow> request \<Rightarrow> (thrown + response) \<times> call list" where
  "try_block env req =
     (case authorization req of
        None \<Rightarrow> (Inr (error_response 401 (js ''Missing authorization header'')), [])
      | Some authHeader \<Rightarrow>
          if authHeader = [] then
            (Inr (error_response 401 (js ''Missing authorization header'')), [])
          else
            let token = replace_first (js ''Bearer '') [] authHeader;
                tr1 = [GetUser token]
            in case getUser env token of
                 Rejects e \<Rightarrow> (Inl e, tr1)
               | Resolves auth \<Rightarrow>
                   (case (authError auth, user auth) of
                      (None, Some u) \<Rightarrow>
                        (case formData req of
                           Rejects e \<Rightarrow> (Inl e, tr1)
                         | Resolves form \<Rightarrow>
                             (case map_of form (js ''image'') of
                                None \<Rightarrow>
                                  (Inr (error_response 400 (js ''No image file provided'')), tr1)
                              | Some file \<Rightarrow>
                                  if \<not> truthy_entry file then
                                    (Inr (error_response 400 (js ''No image file provided'')), tr1)
                                  else
                                    let key = fileName u (now env) file;
                                        opts = \<lparr>contentType = entry_type file, upsert = False\<rparr>;
                                        tr2 = tr1 @ [Upload key file opts]
                                    in case upload env key file opts of
                                         Rejects e \<Rightarrow> (Inl e, tr2)
                                       | Resolves (Inl uploadError) \<Rightarrow>
                                           (Inr (error_response 500 (js ''Failed to upload image'')), tr2)
                                       | Resolves (Inr uploadData) \<Rightarrow>
                                           (case file of
                                              Text _ \<Rightarrow>
                                                (Inl (Error (engine_message env Not_a_function)), tr2)
                                            | File f \<Rightarrow>
                                                if max_arguments env < length (bytes f) then
                                                  (Inl (Error (engine_message env Call_stack_exceeded)), tr2)
                                                else
                                                  let request = ai_request (lovableApiKey env) (dataUrl f);
                                                      tr3 = tr2 @ [Fetch request]
                                                  in case fetch env request of
                                                       Rejects e \<Rightarrow> (Inl e, tr3)
                                                     | Resolves aiResponse \<Rightarrow>
                                                         if \<not> ok aiResponse then
                                                           (case text_body aiResponse of
                                                              Rejects e \<Rightarrow> (Inl e, tr3)
                                                            | Resolves errorText \<Rightarrow>
                                                                if ai_status aiResponse = 429 then
                                                                  (Inr (error_response 429
                                                                     (js ''Rate limit exceeded. Please try again later.'')), tr3)
                                                                else if ai_status aiResponse = 402 then
                                                                  (Inr (error_response 402
                                                                     (js ''AI credits exhausted. Please add credits to continue.'')), tr3)
                                                                else
                                                                  (Inr (error_response 500
                                                                     (js ''Failed to analyze image'')), tr3))
                                                         else
                                                           (case json_body aiResponse of
                                                              Rejects e \<Rightarrow> (Inl e, tr3)
                                                            | Resolves aiData \<Rightarrow>
                                                                let dets = parse_detections aiData;
                                                                    row = \<lparr>user_id = uid u,
                                                                           image_path = path uploadData,
                                                                           detections = dets\<rparr>;
                                                                    tr4 = tr3 @ [Insert row]
                                                                in case insert_detection env row of
                                                                     Rejects e \<Rightarrow> (Inl e, tr4)
                                                                   | Resolves (Inl dbError) \<Rightarrow>
                                                                       (Inr (error_response 500
                                                                          (js ''Failed to save detection results'')), tr4)
                                                                   | Resolves (Inr detectionRecord) \<Rightarrow>
                                                                       let tr5 = tr4 @ [CreateSignedUrl (path uploadData) 3600]
                                                                       in case createSignedUrl env (path uploadData) 3600 of
                                                                            Rejects e \<Rightarrow> (Inl e, tr5)
                                                                          | Resolves (Inl signError) \<Rightarrow>
                                                                              (Inr (success_response detectionRecord None dets), tr5)
                                                                          | Resolves (Inr urlData) \<Rightarrow>
                                                                              (Inr (success_response detectionRecord
                                                                                 (Some (signedUrl urlData)) dets), tr5)))))
                    | _ \<Rightarrow> (Inr (error_response 401 (js ''Unauthorized'')), tr1)))"

text \<open>The \<^verbatim>\<open>catch\<close> clause of the outer \<^verbatim>\<open>try\<close>.\<close>

definition catch_response :: "thrown \<Rightarrow> response" where
  "catch_response e =
     error_response 500
       (case e of Error message \<Rightarrow> message | Thrown_value \<Rightarrow> js ''Internal server error'')"

text \<open>The function given to \<^verbatim>\<open>serve\<close>: the response and the calls made.\<close>

definition handler :: "env \<Rightarrow> request \<Rightarrow> response \<times> call list" where
  "handler env req =
     (if method req = js ''OPTIONS'' then
        (\<lparr>status = 200, headers = corsHeaders, body = None\<rparr>, [])
      else
        (case try_block env req of
           (Inl e, tr) \<Rightarrow> (catch_response e, tr)
         | (Inr r, tr) \<Rightarrow> (r, tr)))"


section \<open>Terms of the specification\<close>




text \<open>
  An authenticated request: not a preflight, with an \<^verbatim>\<open>Authorization\<close> header whose
  token the auth verifier resolves to the user \<open>u\<close> without error.
\<close>

definition authenticated :: "env \<Rightarrow> request \<Rightarrow> jstring \<Rightarrow> user \<Rightarrow> bool" where
  "authenticated env req token u \<longleftrightarrow>
     method req \<noteq> js ''OPTIONS'' \<and>
     (case authorization req of
        None \<Rightarrow> False
      | Some h \<Rightarrow> h \<noteq> [] \<and> token = replace_first (js ''Bearer '') [] h) \<and>
     getUser env token = Resolves \<lparr>user = Some u, authError = None\<rparr>"

text \<open>The options the handler uploads a file with.\<close>

definition upload_opts :: "file_object \<Rightarrow> upload_options" where
  "upload_opts f = \<lparr>contentType = Some (type f), upsert = False\<rparr>"

text \<open>
  A request that reaches the AI call: authenticated, with a file in the \<^verbatim>\<open>image\<close> field
  that the store accepted (answering \<open>uploadData\<close>) and that is small enough to encode,
  and the AI endpoint answered \<open>aiResponse\<close>.
\<close>

definition reaches_ai ::
  "env \<Rightarrow> request \<Rightarrow> jstring \<Rightarrow> user \<Rightarrow> file_object \<Rightarrow> upload_data \<Rightarrow> ai_response \<Rightarrow> bool" where
  "reaches_ai env req token u f uploadData aiResponse \<longleftrightarrow>
     authenticated env req token u \<and>
     (case formData req of
        Rejects _ \<Rightarrow> False
      | Resolves form \<Rightarrow> map_of form (js ''image'') = Some (File f)) \<and>
     upload env (fileName u (now env) (File f)) (File f) (upload_opts f)
       = Resolves (Inr uploadData) \<and>
     length (bytes f) \<le> max_arguments env \<and>
     fetch env (ai_request (lovableApiKey env) (dataUrl f)) = Resolves aiResponse"

text \<open>
  A request that reaches the database insert: the AI endpoint answered with a success
  status and a body that parses to \<open>aiData\<close>.
\<close>

definition reaches_insert ::
  "env \<Rightarrow> request \<Rightarrow> jstring \<Rightarrow> user \<Rightarrow> file_object \<Rightarrow> upload_data \<Rightarrow> json \<Rightarrow> bool" where
  "reaches_insert env req token u f uploadData aiData \<longleftrightarrow>
     (case fetch env (ai_request (lovableApiKey env) (dataUrl f)) of
        Rejects _ \<Rightarrow> False
      | Resolves aiResponse \<Rightarrow>
          reaches_ai env req token u f uploadData aiResponse \<and>
          ok aiResponse \<and> json_body aiResponse = Resolves aiData)"

text \<open>The calls made up to the AI call, and the row the handler inserts.\<close>

definition calls_to_ai :: "env \<Rightarrow> jstring \<Rightarrow> user \<Rightarrow> file_object \<Rightarrow> call list" where
  "calls_to_ai env token u f =
     [GetUser token,
      Upload (fileName u (now env) (File f)) (File f) (upload_opts f),
      Fetch (ai_request (lovableApiKey env) (dataUrl f))]"

definition inserted_row :: "user \<Rightarrow> upload_data \<Rightarrow> json \<Rightarrow> detection_row" where
  "inserted_row u uploadData dets =
     \<lparr>user_id = uid u, image_path = path uploadData, detections = dets\<rparr>"

subsection \<open>A sample world\<close>

definition sample_file :: file_object where
  "sample_file = \<lparr>name = js ''scan.png'', type = js ''image/png'', bytes = [0x89, 0x50, 0x4E, 0x47]\<rparr>"

definition sample_user :: user where
  "sample_user = \<lparr>uid = js ''7f3a-41''\<rparr>"

definition sample_request :: "form_entry option \<Rightarrow> request" where
  "sample_request entry =
     \<lparr>method = js ''POST'',
      authorization = Some (js ''Bearer token-1''),
      formData = Resolves (case entry of None \<Rightarrow> [] | Some e \<Rightarrow> [(js ''image'', e)])\<rparr>"

definition sample_record :: detection_record where
  "sample_record = \<lparr>record_id = js ''d-1'', created_at = js ''2024-05-01T10:00:00Z''\<rparr>"

definition sample_env ::
  "ai_response \<Rightarrow> (jstring + detection_record) \<Rightarrow> (jstring + signed_url) \<Rightarrow> env" where
  "sample_env aiResponse insertResult signResult =
     \<lparr>lovableApiKey = js ''key-1'',
      getUser = (\<lambda>token.
        if token = js ''token-1'' then Resolves \<lparr>user = Some sample_user, authError = None\<rparr>
        else Resolves \<lparr>user = None, authError = Some (js ''invalid token'')\<rparr>),
      now = 1700000000000,
      upload = (\<lambda>key entry opts. Resolves (Inr \<lparr>path = key\<rparr>)),
      max_arguments = 65535,
      engine_message = (\<lambda>e. case e of
          Not_a_function \<Rightarrow> js ''file.arrayBuffer is not a function''
        | Call_stack_exceeded \<Rightarrow> js ''Maximum call stack size exceeded''),
      fetch = (\<lambda>request. Resolves aiResponse),
      insert_detection = (\<lambda>row. Resolves insertResult),
      createSignedUrl = (\<lambda>p ttl. Resolves signResult)\<rparr>"

text \<open>An AI response with the given status and parsed body.\<close>

definition ai_reply :: "nat \<Rightarrow> json \<Rightarrow> ai_response" where
  "ai_reply st aiData =
     \<lparr>ai_status = st, text_body = Resolves (js ''...''), json_body = Resolves aiData\<rparr>"







section \<open>Facts about the parser\<close>


lemma skip_ws_Cons_shorter: "skip_ws s = c # cs \<Longrightarrow> length cs < length s"
proof -
  assume a: "skip_ws s = c # cs"
  have "length (skip_ws s) \<le> length s"
    unfolding skip_ws_def by (rule length_dropWhile_le)
  with a show ?thesis by simp
qed

lemma string_chars_shorter: "string_chars s = Some (k, r) \<Longrightarrow> length r < length s"
proof (induction s arbitrary: k r rule: string_chars.induct)
  case 1
  then show ?case by simp
next
  case (2 c cs)
  then show ?case
    by (fastforce split: if_splits list.splits option.splits)
qed


lemma skip_ws_suffix: "suffix (skip_ws s) s"
  by (simp add: skip_ws_def suffix_dropWhile)

lemma skip_ws_Cons_suffix: "skip_ws s = c # cs \<Longrightarrow> suffix cs s"
  using skip_ws_suffix [of s] by (auto dest: suffix_ConsD)

lemma string_chars_suffix: "string_chars s = Some (k, r) \<Longrightarrow> suffix r s"
proof (induction s arbitrary: k r rule: string_chars.induct)
  case 1
  then show ?case by simp
next
  case (2 c cs)
  show ?case
  proof (cases "c = 0x22")
    case True
    with "2.prems" show ?thesis by (simp add: suffix_ConsI)
  next
    case q: False
    show ?thesis
    proof (cases "c = 0x5C")
      case True
      then obtain e r0 where cs: "cs = e # r0"
        using "2.prems" q by (cases cs) auto
      show ?thesis
      proof (cases "e = 0x75")
        case u: True
        then obtain w k' where h: "hex4 r0 = Some w" and rec: "string_chars (drop 4 r0) = Some (k', r)"
          using "2.prems" q True cs by (auto split: option.splits)
        have "suffix r (drop 4 r0)"
          using "2.IH"(1) [OF q True cs u h rec] .
        then have "suffix r r0"
          using suffix_drop suffix_order.trans by blast
        then show ?thesis by (simp add: cs suffix_ConsI)
      next
        case nu: False
        then obtain w k' where h: "simple_escape e = Some w" and rec: "string_chars r0 = Some (k', r)"
          using "2.prems" q True cs by (auto split: option.splits)
        have "suffix r r0"
          using "2.IH"(2) [OF q True cs nu h rec] .
        then show ?thesis by (simp add: cs suffix_ConsI)
      qed
    next
      case nb: False
      then obtain k' where lo: "\<not> c < 0x20" and rec: "string_chars cs = Some (k', r)"
        using "2.prems" q by (auto split: if_splits)
      have "suffix r cs"
        using "2.IH"(3) [OF q nb lo rec] .
      then show ?thesis by (simp add: suffix_ConsI)
    qed
  qed
qed

lemma int_part_rest: "int_part s = Some (i, r) \<Longrightarrow> suffix r s \<and> length r < length s"
  by (cases s)
     (auto simp: int_part_def suffix_ConsI suffix_dropWhile less_Suc_eq_le length_dropWhile_le
           split: if_splits)

lemma frac_part_rest: "frac_part s = Some (f, r) \<Longrightarrow> suffix r s"
  by (cases s)
     (auto simp: frac_part_def Let_def suffix_ConsI suffix_dropWhile split: if_splits)

lemma exp_part_rest: "exp_part s = Some (e, r) \<Longrightarrow> suffix r s"
  by (cases s)
     (auto simp: exp_part_def Let_def suffix_ConsI suffix_dropWhile
           split: if_splits list.splits prod.splits)

lemma parse_number_rest:
  assumes "parse_number s = Some (q, r)"
  shows "suffix r s \<and> length r < length s"
proof -
  obtain neg s1 where n: "(case s of [] \<Rightarrow> (False, s)
             | c # r \<Rightarrow> if c = 0x2D then (True, r) else (False, s)) = (neg, s1)"
    by fastforce
  have s1: "suffix s1 s"
    using n by (cases s) (auto simp: suffix_ConsI split: if_splits)
  from assms n obtain i s2 f s3 e where
    a: "int_part s1 = Some (i, s2)" and b: "frac_part s2 = Some (f, s3)"
    and c: "exp_part s3 = Some (e, r)"
    by (auto simp: parse_number_def split: option.splits)
  have "suffix r s2"
    using frac_part_rest [OF b] exp_part_rest [OF c] suffix_order.trans by blast
  moreover have "suffix s2 s1" "length s2 < length s1"
    using int_part_rest [OF a] by auto
  ultimately show ?thesis
    using s1 by (meson suffix_order.trans suffix_length_le le_less_trans less_le_trans)
qed

lemma parse_literal_rest:
  assumes "parse_literal s = Some (v, r)"
  shows "suffix r s \<and> length r < length s"
  using assms parse_number_rest [of s]
  by (auto simp: parse_literal_def js_def prefix_def suffix_def split: if_splits)

lemma skip_ws_Cons_rest: "skip_ws s = c # cs \<Longrightarrow> suffix cs s \<and> length cs < length s"
  by (simp add: skip_ws_Cons_suffix skip_ws_Cons_shorter)

lemma rest_trans:
  "suffix r t \<and> length r < length t \<Longrightarrow> suffix t s \<Longrightarrow> suffix r s \<and> length r < length s"
  by (meson suffix_order.trans suffix_length_le less_le_trans)

lemma rest_trans':
  "suffix r t \<Longrightarrow> suffix t s \<and> length t < length s \<Longrightarrow> suffix r s \<and> length r < length s"
  by (meson suffix_order.trans suffix_length_le le_less_trans)

lemma string_chars_rest: "string_chars s = Some (k, r) \<Longrightarrow> suffix r s \<and> length r < length s"
  by (simp add: string_chars_suffix string_chars_shorter)

lemma parse_rest:
  shows "\<forall>v r. parse_value s = Some (v, r) \<longrightarrow> suffix r s \<and> length r < length s"
    and "\<forall>xs r. parse_elements s' = Some (xs, r) \<longrightarrow>
           suffix r s' \<and> length r < length s' \<and> 0x5D \<in> set s'"
    and "\<forall>ms r. parse_members s'' = Some (ms, r) \<longrightarrow> suffix r s'' \<and> length r < length s''"
proof (induction s and s' and s'' rule: parse_value_parse_elements_parse_members.induct)
  case (1 s)
  show ?case
  proof (intro allI impI)
    fix v r
    assume a: "parse_value s = Some (v, r)"
    then obtain c cs where sk: "skip_ws s = c # cs"
      by (subst (asm) parse_value.simps) (auto split: list.splits)
    note cs = skip_ws_Cons_rest [OF sk]
    consider (arr) "c = 0x5B" | (obj) "c \<noteq> 0x5B" "c = 0x7B"
      | (str) "c \<noteq> 0x5B" "c \<noteq> 0x7B" "c = 0x22"
      | (lit) "c \<noteq> 0x5B" "c \<noteq> 0x7B" "c \<noteq> 0x22"
      by blast
    then show "suffix r s \<and> length r < length s"
    proof cases
      case arr
      from a sk arr obtain d r0 where sk2: "skip_ws cs = d # r0"
        by (subst (asm) parse_value.simps) (auto split: list.splits)
      show ?thesis
      proof (cases "d = 0x5D")
        case True
        with a sk arr sk2 have "r = r0"
          by (subst (asm) parse_value.simps) auto
        then show ?thesis
          using skip_ws_Cons_rest [OF sk2] cs by (meson rest_trans)
      next
        case False
        with a sk arr sk2 obtain xs where "parse_elements cs = Some (xs, r)"
          by (subst (asm) parse_value.simps) auto
        with "1.IH"(1) [OF sk arr sk2 False] have "suffix r cs \<and> length r < length cs"
          by blast
        then show ?thesis using cs by (meson rest_trans)
      qed
    next
      case obj
      from a sk obj obtain d r0 where sk2: "skip_ws cs = d # r0"
        by (subst (asm) parse_value.simps) (auto split: list.splits)
      show ?thesis
      proof (cases "d = 0x7D")
        case True
        with a sk obj sk2 have "r = r0"
          by (subst (asm) parse_value.simps) auto
        then show ?thesis
          using skip_ws_Cons_rest [OF sk2] cs by (meson rest_trans)
      next
        case False
        with a sk obj sk2 obtain ms where "parse_members cs = Some (ms, r)"
          by (subst (asm) parse_value.simps) auto
        with "1.IH"(2) [OF sk obj sk2 False] have "suffix r cs \<and> length r < length cs"
          by blast
        then show ?thesis using cs by (meson rest_trans)
      qed
    next
      case str
      with a sk obtain k where "string_chars cs = Some (k, r)"
        by (subst (asm) parse_value.simps) auto
      then show ?thesis
        using string_chars_rest cs by (meson rest_trans)
    next
      case lit
      with a sk have "parse_literal (c # cs) = Some (v, r)"
        by (subst (asm) parse_value.simps) auto
      then have "suffix r (c # cs) \<and> length r < length (c # cs)"
        by (rule parse_literal_rest)
      moreover have "suffix (c # cs) s"
        using skip_ws_suffix [of s] sk by simp
      ultimately show ?thesis by (meson rest_trans)
    qed
  qed
next
  case (2 s)
  show ?case
  proof (intro allI impI)
    fix xs r
    assume a: "parse_elements s = Some (xs, r)"
    then obtain v r1 where pv: "parse_value s = Some (v, r1)"
      by (subst (asm) parse_elements.simps) (auto split: option.splits)
    from a pv obtain d r' where sk: "skip_ws r1 = d # r'"
      by (subst (asm) parse_elements.simps) (auto split: list.splits)
    have r1: "suffix r1 s \<and> length r1 < length s"
      using "2.IH"(1) pv by blast
    have r': "suffix r' s \<and> length r' < length s"
      using skip_ws_Cons_rest [OF sk] r1 by (meson rest_trans rest_trans')
    have d_in: "d \<in> set s"
    proof -
      have "suffix (d # r') r1" using skip_ws_suffix [of r1] sk by simp
      then have "suffix (d # r') s" using r1 suffix_order.trans by blast
      then show ?thesis by (auto simp: suffix_def)
    qed
    show "suffix r s \<and> length r < length s \<and> 0x5D \<in> set s"
    proof (cases "d = 0x5D")
      case True
      with a pv sk have "r = r'"
        by (subst (asm) parse_elements.simps) auto
      with r' d_in True show ?thesis by simp
    next
      case False
      with a pv sk obtain ys where c: "d = 0x2C" and l: "length r' < length s"
        and rec: "parse_elements r' = Some (ys, r)"
        by (subst (asm) parse_elements.simps) (auto split: if_splits)
      have "d = 0x2C \<and> length r' < length s" using c l by simp
      from "2.IH"(2) [OF pv refl sk False this] rec
      have "suffix r r' \<and> length r < length r' \<and> 0x5D \<in> set r'"
        by blast
      moreover have "set r' \<subseteq> set s"
        using r' by (auto simp: suffix_def)
      ultimately show ?thesis
        using r' by (meson rest_trans subsetD)
    qed
  qed
next
  case (3 s)
  show ?case
  proof (intro allI impI)
    fix ms r
    assume a: "parse_members s = Some (ms, r)"
    then obtain q s1 where sk: "skip_ws s = q # s1"
      by (subst (asm) parse_members.simps) (auto split: list.splits)
    from a sk have q: "q = 0x22"
      by (subst (asm) parse_members.simps) (auto split: if_splits)
    from a sk q obtain k s2 where sc: "string_chars s1 = Some (k, s2)"
      by (subst (asm) parse_members.simps) (auto split: option.splits)
    from a sk q sc obtain p s3 where sk2: "skip_ws s2 = p # s3"
      by (subst (asm) parse_members.simps) (auto split: list.splits)
    from a sk q sc sk2 have p: "p = 0x3A"
      by (subst (asm) parse_members.simps) (auto split: if_splits)
    from a sk q sc sk2 p obtain v r1 where pv: "parse_value s3 = Some (v, r1)"
      by (subst (asm) parse_members.simps) (auto split: option.splits)
    from a sk q sc sk2 p pv obtain d r' where sk3: "skip_ws r1 = d # r'"
      by (subst (asm) parse_members.simps) (auto split: list.splits)
    have s3: "suffix s3 s \<and> length s3 < length s"
      using skip_ws_Cons_rest [OF sk] string_chars_rest [OF sc] skip_ws_Cons_rest [OF sk2]
      by (meson rest_trans)
    have "suffix r1 s3 \<and> length r1 < length s3"
      using "3.IH"(1) [OF sk q sc refl sk2 p] pv by blast
    then have r1: "suffix r1 s \<and> length r1 < length s"
      using s3 by (meson rest_trans)
    have r': "suffix r' s \<and> length r' < length s"
      using skip_ws_Cons_rest [OF sk3] r1 by (meson rest_trans)
    show "suffix r s \<and> length r < length s"
    proof (cases "d = 0x7D")
      case True
      with a sk q sc sk2 p pv sk3 have "r = r'"
        by (subst (asm) parse_members.simps) auto
      with r' show ?thesis by simp
    next
      case False
      with a sk q sc sk2 p pv sk3 obtain ys where c: "d = 0x2C" and l: "length r' < length s"
        and rec: "parse_members r' = Some (ys, r)"
        by (subst (asm) parse_members.simps) (auto split: if_splits)
      have "d = 0x2C \<and> length r' < length s" using c l by simp
      from "3.IH"(2) [OF sk q sc refl sk2 p pv refl sk3 False this] rec
      have "suffix r r' \<and> length r < length r'"
        by blast
      then show ?thesis
        using r' by (meson rest_trans)
    qed
  qed
qed


lemma parse_value_shorter: "parse_value s = Some (v, r) \<Longrightarrow> length r < length s"
  using parse_rest(1) by blast












lemma handler_insert:
  assumes "reaches_insert env req token u f uploadData aiData"
  shows "handler env req =
     (case insert_detection env (inserted_row u uploadData (parse_detections aiData)) of
        Rejects e \<Rightarrow>
          (catch_response e,
           calls_to_ai env token u f
             @ [Insert (inserted_row u uploadData (parse_detections aiData))])
      | Resolves (Inl dbError) \<Rightarrow>
          (error_response 500 (js ''Failed to save detection results''),
           calls_to_ai env token u f
             @ [Insert (inserted_row u uploadData (parse_detections aiData))])
      | Resolves (Inr detectionRecord) \<Rightarrow>
          (case createSignedUrl env (path uploadData) 3600 of
             Rejects e \<Rightarrow>
               (catch_response e,
                calls_to_ai env token u f
                  @ [Insert (inserted_row u uploadData (parse_detections aiData)),
                     CreateSignedUrl (path uploadData) 3600])
           | Resolves signResult \<Rightarrow>
               (success_response detectionRecord
                  (case signResult of Inl _ \<Rightarrow> None | Inr urlData \<Rightarrow> Some (signedUrl urlData))
                  (parse_detections aiData),
                calls_to_ai env token u f
                  @ [Insert (inserted_row u uploadData (parse_detections aiData)),
                     CreateSignedUrl (path uploadData) 3600])))"
  using assms
  by (auto simp: handler_def try_block_def reaches_insert_def reaches_ai_def authenticated_def
        calls_to_ai_def inserted_row_def upload_opts_def entry_type_def truthy_entry_def Let_def
      split: option.splits awaited.splits sum.splits)



lemma sample_reaches_ai:
  "reaches_ai (sample_env r i g) (sample_request (Some (File sample_file))) (js ''token-1'')
     sample_user sample_file
     \<lparr>path = fileName sample_user 1700000000000 (File sample_file)\<rparr> r"
  by (simp add: reaches_ai_def authenticated_def sample_env_def sample_request_def
        sample_file_def js_def)

lemma sample_reaches_insert:
  "reaches_insert (sample_env (ai_reply 200 aiData) i g)
     (sample_request (Some (File sample_file))) (js ''token-1'') sample_user sample_file
     \<lparr>path = fileName sample_user 1700000000000 (File sample_file)\<rparr> aiData"
proof -
  have "fetch (sample_env (ai_reply 200 aiData) i g) q = Resolves (ai_reply 200 aiData)" for q
    by (simp add: sample_env_def)
  moreover have "ok (ai_reply 200 aiData)" "json_body (ai_reply 200 aiData) = Resolves aiData"
    by (simp_all add: ok_def ai_reply_def)
  ultimately show ?thesis
    using sample_reaches_ai [of "ai_reply 200 aiData" i g]
    by (simp add: reaches_insert_def)
qed


section \<open>Facts about the handler\<close>









lemma sample_env_fields:
  "now (sample_env r i g) = 1700000000000"
  "lovableApiKey (sample_env r i g) = js ''key-1''"
  "insert_detection (sample_env r i g) row = Resolves i"
  "createSignedUrl (sample_env r i g) p ttl = Resolves g"
  by (simp_all add: sample_env_def)






lemma handler_no_image:
  assumes "authenticated env req token u" and "formData req = Resolves form"
    and "map_of form (js ''image'') = None \<or> map_of form (js ''image'') = Some (Text [])"
  shows "handler env req = (error_response 400 (js ''No image file provided''), [GetUser token])"
  using assms
  by (auto simp: handler_def try_block_def authenticated_def truthy_entry_def Let_def
      split: option.splits)

lemma handler_text_entry:
  assumes "authenticated env req token u" and "formData req = Resolves form"
    and "map_of form (js ''image'') = Some (Text t)" and "t \<noteq> []"
    and "upload env (fileName u (now env) (Text t)) (Text t)
           \<lparr>contentType = None, upsert = False\<rparr> = Resolves (Inr uploadData)"
  shows "handler env req =
     (error_response 500 (engine_message env Not_a_function),
      [GetUser token,
       Upload (fileName u (now env) (Text t)) (Text t) \<lparr>contentType = None, upsert = False\<rparr>])"
  using assms
  by (auto simp: handler_def try_block_def authenticated_def truthy_entry_def entry_type_def
        catch_response_def Let_def
      split: option.splits)

lemma sample_authenticated:
  "authenticated (sample_env r i g) (sample_request e) (js ''token-1'') sample_user"
  by (simp add: authenticated_def sample_env_def sample_request_def js_def)



lemma auth_reply_eq:
  "(r = \<lparr>user = a, authError = b\<rparr>) \<longleftrightarrow> (user r = a \<and> authError r = b)"
  by (cases r) auto

lemma reaches_insert_iff:
  "reaches_insert env req token u f uploadData aiData \<longleftrightarrow>
     (\<exists>aiResponse. reaches_ai env req token u f uploadData aiResponse \<and>
        ok aiResponse \<and> json_body aiResponse = Resolves aiData)"
  by (auto simp: reaches_insert_def reaches_ai_def split: awaited.splits)

lemma success_inversion:
  assumes "handler env req = (resp, tr)" and "method req \<noteq> js ''OPTIONS''"
    and "status resp = 200"
  shows "\<exists>token u f uploadData aiData detectionRecord signResult.
     reaches_insert env req token u f uploadData aiData \<and>
     insert_detection env (inserted_row u uploadData (parse_detections aiData))
       = Resolves (Inr detectionRecord) \<and>
     createSignedUrl env (path uploadData) 3600 = Resolves signResult"
  using assms
  unfolding reaches_insert_iff
  by (auto simp: handler_def try_block_def reaches_ai_def authenticated_def
        inserted_row_def upload_opts_def entry_type_def truthy_entry_def Let_def
        error_response_def catch_response_def success_response_def auth_reply_eq
      split: option.splits awaited.splits sum.splits if_splits form_entry.splits prod.splits)

section \<open>The claims\<close>










text \<open>
  C4 at a form whose \<^verbatim>\<open>image\<close> field is a non-empty string, not a file: the guard
  \<^verbatim>\<open>if (!file)\<close> lets it pass, the string is uploaded under a key that ends in
  \<^verbatim>\<open>_undefined\<close>, and the answer is 500 with the engine's message for calling
  \<^verbatim>\<open>file.arrayBuffer\<close>, not 400. (For an absent field the answer is 400 before any
  upload: \<open>handler_no_image\<close>.)
\<close>

theorem text_image_field_is_uploaded:
  "map_of [(js ''image'', Text (js ''not a file''))] (js ''image'') = Some (Text (js ''not a file'')) \<and>
   handler (sample_env (ai_reply 200 JNull) (Inr sample_record) (Inl []))
     (sample_request (Some (Text (js ''not a file''))))
   = (error_response 500 (js ''file.arrayBuffer is not a function''),
      [GetUser (js ''token-1''),
       Upload (js ''7f3a-41/1700000000000_undefined'') (Text (js ''not a file''))
         \<lparr>contentType = None, upsert = False\<rparr>])"
proof -
  let ?env = "sample_env (ai_reply 200 JNull) (Inr sample_record) (Inl [])"
  let ?t = "js ''not a file''"
  have k: "fileName sample_user 1700000000000 (Text ?t) = js ''7f3a-41/1700000000000_undefined''"
    by (simp add: fileName_def sample_user_def entry_name_def number_to_string_def
          digits_of.simps js_def)
  have f: "formData (sample_request (Some (Text ?t))) = Resolves [(js ''image'', Text ?t)]"
    by (simp add: sample_request_def)
  have m: "map_of [(js ''image'', Text ?t)] (js ''image'') = Some (Text ?t)"
    by simp
  have n: "?t \<noteq> []" by (simp add: js_def)
  have u: "upload ?env (fileName sample_user (now ?env) (Text ?t)) (Text ?t)
       \<lparr>contentType = None, upsert = False\<rparr>
     = Resolves (Inr \<lparr>path = fileName sample_user (now ?env) (Text ?t)\<rparr>)"
    by (simp add: sample_env_def)
  have e: "engine_message ?env Not_a_function = js ''file.arrayBuffer is not a function''"
    by (simp add: sample_env_def)
  show ?thesis
    using handler_text_entry [OF sample_authenticated f m n u] k e m
    by (simp add: sample_env_fields)
qed







text \<open>
  C7. When every step up to the insert succeeded and the signing answers with an error,
  the handler still answers 200, with \<open>id\<close>, \<open>detections\<close> and \<open>created_at\<close> in the
  body and no \<open>image_url\<close>.
\<close>

theorem signing_failure_not_fatal:
  assumes "reaches_insert env req token u f uploadData aiData"
    and "insert_detection env (inserted_row u uploadData (parse_detections aiData))
           = Resolves (Inr detectionRecord)"
    and "createSignedUrl env (path uploadData) 3600 = Resolves (Inl signError)"
  shows "handler env req =
     (\<lparr>status = 200,
       headers = corsHeaders @ [(js ''Content-Type'', js ''application/json'')],
       body = Some (JObject
         [(js ''id'', JString (record_id detectionRecord)),
          (js ''detections'', parse_detections aiData),
          (js ''created_at'', JString (created_at detectionRecord))])\<rparr>,
      [GetUser token,
       Upload (fileName u (now env) (File f)) (File f) (upload_opts f),
       Fetch (ai_request (lovableApiKey env) (dataUrl f)),
       Insert (inserted_row u uploadData (parse_detections aiData)),
       CreateSignedUrl (path uploadData) 3600])"
  using handler_insert [OF assms(1)] assms(2,3)
  by (simp add: calls_to_ai_def success_response_def)


theorem signing_failure_not_fatal_witness:
  "reaches_insert (sample_env (ai_reply 200 JNull) (Inr sample_record) (Inl (js ''Object not found'')))
     (sample_request (Some (File sample_file))) (js ''token-1'') sample_user sample_file
     \<lparr>path = fileName sample_user 1700000000000 (File sample_file)\<rparr> JNull \<and>
   handler (sample_env (ai_reply 200 JNull) (Inr sample_record) (Inl (js ''Object not found'')))
     (sample_request (Some (File sample_file)))
   = (\<lparr>status = 200,
       headers = corsHeaders @ [(js ''Content-Type'', js ''application/json'')],
       body = Some (JObject
         [(js ''id'', JString (js ''d-1'')),
          (js ''detections'', parse_detections JNull),
          (js ''created_at'', JString (js ''2024-05-01T10:00:00Z''))])\<rparr>,
      [GetUser (js ''token-1''),
       Upload (fileName sample_user 1700000000000 (File sample_file)) (File sample_file)
         (upload_opts sample_file),
       Fetch (ai_request (js ''key-1'') (dataUrl sample_file)),
       Insert (inserted_row sample_user
         \<lparr>path = fileName sample_user 1700000000000 (File sample_file)\<rparr>
         (parse_detections JNull)),
       CreateSignedUrl (fileName sample_user 1700000000000 (File sample_file)) 3600])"
proof -
  let ?env = "sample_env (ai_reply 200 JNull) (Inr sample_record) (Inl (js ''Object not found''))"
  have a: "reaches_insert ?env (sample_request (Some (File sample_file))) (js ''token-1'')
     sample_user sample_file
     \<lparr>path = fileName sample_user 1700000000000 (File sample_file)\<rparr> JNull"
    by (rule sample_reaches_insert)
  have b: "insert_detection ?env row = Resolves (Inr sample_record)" for row
    by (simp add: sample_env_def)
  have c: "createSignedUrl ?env p ttl = Resolves (Inl (js ''Object not found''))" for p ttl
    by (simp add: sample_env_def)
  have e: "now ?env = 1700000000000" "lovableApiKey ?env = js ''key-1''"
    by (simp_all add: sample_env_def)
  show ?thesis
    using signing_failure_not_fatal [OF a b c] a e by (simp add: sample_record_def)
qed










end
